theory Spec2Isabelle
  imports Main
begin

section \<open>Python values and dictionaries\<close>

text \<open>
  The values stored in \<open>Node.available\<close>, \<open>Node.resources\<close> and \<open>Node.metadata\<close>
  are typed \<open>Any\<close> in \<open>node.py\<close>. The model keeps \<open>None\<close>, integers (Python's
  \<open>bool\<close> is a subclass of \<open>int\<close>, so \<open>True\<close> is \<open>PyInt 1\<close>) and strings; on these
  Python's \<open>==\<close> is structural equality.
\<close>

datatype pyval = PyNone | PyInt int | PyStr string

text \<open>
  A Python \<open>dict\<close> keeps its keys in insertion order, and \<open>Node.update\<close> iterates
  \<open>snode.available.items()\<close> in that order, so a dictionary is an association list.
  A well-formed dictionary has no key twice.
\<close>

type_synonym dict = "(string \<times> pyval) list"

definition wf_dict :: "dict \<Rightarrow> bool" where
  "wf_dict d = distinct (map fst d)"

text \<open>\<open>d.get(k)\<close>: the value, or \<open>None\<close> when the key is missing.\<close>

definition dict_get :: "dict \<Rightarrow> string \<Rightarrow> pyval" where
  "dict_get d k = (case map_of d k of None \<Rightarrow> PyNone | Some v \<Rightarrow> v)"

text \<open>\<open>d[k] = v\<close>: an existing key keeps its position, a new key goes last.\<close>

fun dict_setitem :: "dict \<Rightarrow> string \<Rightarrow> pyval \<Rightarrow> dict" where
  "dict_setitem [] k v = [(k, v)]"
| "dict_setitem ((k', v') # d) k v =
     (if k' = k then (k, v) # d else (k', v') # dict_setitem d k v)"

text \<open>\<open>d.update(other)\<close>: \<open>d[k] = v\<close> for every item of \<open>other\<close>, in order.\<close>

fun dict_update :: "dict \<Rightarrow> dict \<Rightarrow> dict" where
  "dict_update d [] = d"
| "dict_update d ((k, v) # kvs) = dict_update (dict_setitem d k v) kvs"

text \<open>Truthiness of an \<open>Optional[str]\<close>: \<open>None\<close> and \<open>""\<close> are false.\<close>

fun truthy_str :: "string option \<Rightarrow> bool" where
  "truthy_str None = False"
| "truthy_str (Some s) = (s \<noteq> [])"


section \<open>The node\<close>

datatype error = RuntimeError | AssertionError

text \<open>
  The fields of \<open>Node\<close> that the operations below read or write. \<open>allocated\<close> is
  \<open>_allocated\<close>, \<open>transient_id\<close> stands for \<open>delayed_node_id.transient_id\<close>. The static
  descriptors (nodearray, bucket, VM size, location, CPU and memory sizes, time stamps,
  software configuration) are only stored and read back, and are left out.
\<close>

record node =
  name :: string
  hostname :: "string option"
  transient_id :: string
  state :: string
  exists :: bool
  placement_group :: "string option"
  managed :: bool
  resources :: dict
  available :: dict
  keep_alive :: bool
  allocated :: bool
  closed :: bool
  metadata :: dict
  node_attribute_overrides :: dict
  assignments :: "string set"

text \<open>
  A method that mutates the node in place and may raise returns what it raised or
  returned, together with the node as the call leaves it.
\<close>

type_synonym 'a outcome = "(error + 'a) \<times> node"

subsection \<open>The \<open>required\<close> property\<close>

definition required :: "node \<Rightarrow> bool" where
  "required self = (keep_alive self \<or> allocated self \<or> assignments self \<noteq> {})"

definition required_setter :: "node \<Rightarrow> bool \<Rightarrow> node" where
  "required_setter self v = self\<lparr>allocated := v\<rparr>"

subsection \<open>The \<open>placement_group\<close> setter\<close>

text \<open>The character class \<open>[a-zA-Z0-9_-]\<close>.\<close>

definition pg_char :: "char \<Rightarrow> bool" where
  "pg_char c =
     (let k = (of_char c :: nat) in
        (97 \<le> k \<and> k \<le> 122) \<or> (65 \<le> k \<and> k \<le> 90) \<or> (48 \<le> k \<and> k \<le> 57)
        \<or> c = CHR ''_'' \<or> c = CHR ''-'')"

text \<open>
  \<open>re.match("^[a-zA-Z0-9_-]+$", value)\<close>. Without \<open>re.MULTILINE\<close>, Python's \<open>$\<close>
  matches at the end of the string and also just before a newline that is the last
  character of the string. \<open>pg_rest\<close> is the matcher after the first character of the
  class has been consumed.
\<close>

fun pg_rest :: "string \<Rightarrow> bool" where
  "pg_rest [] = True"
| "pg_rest (c # cs) = (if pg_char c then pg_rest cs else (c = CHR 0x0A \<and> cs = []))"

fun re_match_pg :: "string \<Rightarrow> bool" where
  "re_match_pg [] = False"
| "re_match_pg (c # cs) = (pg_char c \<and> pg_rest cs)"

definition placement_group_setter :: "node \<Rightarrow> string option \<Rightarrow> unit outcome" where
  "placement_group_setter self v =
     (let val = (if v = Some [] then None else v) in
        if truthy_str (placement_group self) \<and> val \<noteq> placement_group self \<and> exists self
        then (Inl RuntimeError, self)
        else if (case val of None \<Rightarrow> False | Some s \<Rightarrow> s \<noteq> [] \<and> \<not> re_match_pg s)
        then (Inl RuntimeError, self)
        else (Inr (), self\<lparr>placement_group := val\<rparr>))"

subsection \<open>The \<open>closed\<close> setter\<close>

definition closed_setter :: "node \<Rightarrow> bool \<Rightarrow> unit outcome" where
  "closed_setter self v =
     (if v then (Inr (), self\<lparr>closed := v\<rparr>)
      else if closed self then (Inl RuntimeError, self)
      else (Inr (), self))"

text \<open>
  A caller that sets \<open>closed\<close> to each value of a list in turn, catching what an attempt
  raises and going on.
\<close>

fun closed_attempts :: "node \<Rightarrow> bool list \<Rightarrow> node" where
  "closed_attempts self [] = self"
| "closed_attempts self (v # vs) = closed_attempts (snd (closed_setter self v)) vs"

subsection \<open>Construction and \<open>clone\<close>\<close>

text \<open>
  \<open>Node.__init__\<close>: \<open>available\<close> starts as a copy of \<open>resources\<close>, the placement
  group goes through the setter (which may raise), and the allocation state starts
  empty. The fields that \<open>__init__\<close> assigns after the call of the setter are constants,
  so they are written into the record first.
\<close>

definition Node_init ::
  "string \<Rightarrow> string option \<Rightarrow> string \<Rightarrow> string \<Rightarrow> bool \<Rightarrow> string option \<Rightarrow> bool \<Rightarrow> dict \<Rightarrow> bool
     \<Rightarrow> error + node" where
  "Node_init nm hn tid st ex pg mg res ka =
     (let self = \<lparr>name = nm, hostname = hn, transient_id = tid, state = st, exists = ex,
                  placement_group = None, managed = mg, resources = res, available = res,
                  keep_alive = ka, allocated = False, closed = False, metadata = [],
                  node_attribute_overrides = [], assignments = {}\<rparr>
      in case placement_group_setter self pg of
           (Inl e, _) \<Rightarrow> Inl e
         | (Inr _, self') \<Rightarrow> Inr self')"

definition hostname_or_uuid :: "node \<Rightarrow> string" where
  "hostname_or_uuid self =
     (case hostname self of None \<Rightarrow> transient_id self
      | Some h \<Rightarrow> if h = [] then transient_id self else h)"

text \<open>
  \<open>clone\<close>; \<open>tid\<close> is the transient id of \<open>self.__node_id.clone()\<close> (\<open>DelayedNodeId\<close>
  is not part of \<open>node.py\<close>).
\<close>

definition clone :: "node \<Rightarrow> string \<Rightarrow> error + node" where
  "clone self tid =
     (case Node_init (name self) (Some (hostname_or_uuid self)) tid (state self) (exists self)
             (placement_group self) (managed self) (resources self) (keep_alive self) of
        Inl e \<Rightarrow> Inl e
      | Inr ret \<Rightarrow>
          Inr (ret\<lparr>available := dict_update (available ret) (available self),
                   metadata := dict_update (metadata ret) (metadata self),
                   node_attribute_overrides :=
                     (if \<not> exists self
                      then dict_update (node_attribute_overrides ret) (node_attribute_overrides self)
                      else node_attribute_overrides ret)\<rparr>))"


section \<open>Constraints and results\<close>

text \<open>
  Modelled from the spec: the value \<open>constraint.satisfied_by_node(node)\<close> returns
  (\<open>constraints.py\<close> is not part of the sources). \<open>decrement\<close> reads its truth value and,
  guarded by \<open>hasattr(result, "reasons")\<close>, its reasons: \<open>PlainResult b\<close> is a value with
  truth value \<open>b\<close> and no \<open>reasons\<close> attribute (a Python \<open>bool\<close>), \<open>SatisfiedResult b rs\<close>
  one with truth value \<open>b\<close> and \<open>reasons == rs\<close>.
\<close>

datatype sat_result = PlainResult bool | SatisfiedResult bool "string list"

fun truthy :: "sat_result \<Rightarrow> bool" where
  "truthy (PlainResult b) = b"
| "truthy (SatisfiedResult b rs) = b"

text \<open>The reasons \<open>decrement\<close> takes from a result: none without the attribute.\<close>

fun result_reasons :: "sat_result \<Rightarrow> string list" where
  "result_reasons (PlainResult b) = []"
| "result_reasons (SatisfiedResult b rs) = rs"

text \<open>
  Modelled from the spec: the constraint capability (\<open>NodeConstraint\<close> of
  \<open>constraints.py\<close>, not part of the sources). \<open>satisfied_by_node\<close> and
  \<open>minimum_space_of\<close> (the method \<open>minimum_space\<close>) only read the node; \<open>do_decrement\<close>
  mutates it and says whether it succeeded.
\<close>

record constraint =
  satisfied_by_node :: "node \<Rightarrow> sat_result"
  minimum_space_of :: "node \<Rightarrow> int"
  do_decrement :: "node \<Rightarrow> bool \<times> node"

text \<open>
  Modelled from the spec: \<open>MatchResult\<close> (\<open>results.py\<close> is not part of the sources),
  holding what \<open>decrement\<close> passes to its constructor. The \<open>node\<close> argument is a
  reference to \<open>self\<close>, which \<open>decrement\<close> returns beside the result; \<open>reasons\<close> is
  \<open>None\<close> where the call passes none.
\<close>

record match_result =
  status :: string
  slots :: int
  reasons :: "string list option"


section \<open>The allocation engine\<close>

text \<open>
  The loop of the module function \<open>minimum_space\<close>, on the running \<open>min_space\<close>
  (\<open>None\<close> until a finite value is seen). The decorator \<open>hpcwrap\<close> of
  \<open>codeanalysis\<close> is taken to hand the function's value on unchanged.
\<close>

fun minimum_space_loop :: "constraint list \<Rightarrow> node \<Rightarrow> int option \<Rightarrow> int option" where
  "minimum_space_loop [] node min_space = min_space"
| "minimum_space_loop (c # cs) node min_space =
     (let constraint_min_space = minimum_space_of c node in
        if constraint_min_space > -1
        then minimum_space_loop cs node
               (Some (min (case min_space of None \<Rightarrow> constraint_min_space | Some m \<Rightarrow> m)
                          constraint_min_space))
        else minimum_space_loop cs node min_space)"

definition minimum_space :: "constraint list \<Rightarrow> node \<Rightarrow> int" where
  "minimum_space constraints node =
     (case minimum_space_loop constraints node (if constraints \<noteq> [] then None else Some 1) of
        None \<Rightarrow> -1
      | Some m \<Rightarrow> m)"

text \<open>The first loop of \<open>decrement\<close>, on \<open>(is_unsatisfied, reasons)\<close>.\<close>

fun satisfied_loop :: "node \<Rightarrow> constraint list \<Rightarrow> bool \<times> string list \<Rightarrow> bool \<times> string list" where
  "satisfied_loop self [] acc = acc"
| "satisfied_loop self (c # cs) (is_unsatisfied, rs) =
     (let result = satisfied_by_node c self in
        if \<not> truthy result
        then satisfied_loop self cs (True, rs @ result_reasons result)
        else satisfied_loop self cs (is_unsatisfied, rs))"

text \<open>
  The packing loops: \<open>do_decrement\<close> of one constraint \<open>k\<close> times, for each constraint
  in turn. A call that returns false fails the \<open>assert\<close>, which leaves the node as the
  calls so far have made it.
\<close>

fun decrement_times :: "constraint \<Rightarrow> nat \<Rightarrow> node \<Rightarrow> error option \<times> node" where
  "decrement_times c 0 self = (None, self)"
| "decrement_times c (Suc k) self =
     (case do_decrement c self of
        (True, self') \<Rightarrow> decrement_times c k self'
      | (False, self') \<Rightarrow> (Some AssertionError, self'))"

fun pack :: "constraint list \<Rightarrow> nat \<Rightarrow> node \<Rightarrow> error option \<times> node" where
  "pack [] k self = (None, self)"
| "pack (c # cs) k self =
     (case decrement_times c k self of
        (None, self') \<Rightarrow> pack cs k self'
      | (Some e, self') \<Rightarrow> (Some e, self'))"

text \<open>\<open>assignment_id or str(uuid4())\<close>; \<open>uuid\<close> is the string \<open>str(uuid4())\<close> would give.\<close>

definition chosen_id :: "string option \<Rightarrow> string \<Rightarrow> string" where
  "chosen_id assignment_id uuid =
     (case assignment_id of None \<Rightarrow> uuid | Some a \<Rightarrow> if a = [] then uuid else a)"

text \<open>
  \<open>Node.decrement\<close>. \<open>range(to_pack)\<close> is empty for a negative \<open>to_pack\<close>.
\<close>

definition decrement ::
  "node \<Rightarrow> constraint list \<Rightarrow> int \<Rightarrow> string option \<Rightarrow> string \<Rightarrow> match_result outcome" where
  "decrement self constraints iterations assignment_id uuid =
     (if closed self
      then (Inr \<lparr>status = ''NodeClosed'', slots = iterations, reasons = None\<rparr>, self)
      else
        let aid = chosen_id assignment_id uuid;
            (is_unsatisfied, rs) = satisfied_loop self constraints (False, [])
        in if is_unsatisfied
           then (Inr \<lparr>status = ''NodeRejected'', slots = iterations, reasons = Some rs\<rparr>, self)
           else
             let min_space = minimum_space constraints self;
                 min_space = (if min_space = -1 then iterations else min_space);
                 to_pack = min iterations min_space
             in case pack constraints (nat to_pack) self of
                  (Some e, self') \<Rightarrow> (Inl e, self')
                | (None, self') \<Rightarrow>
                    (Inr \<lparr>status = ''success'', slots = to_pack, reasons = None\<rparr>,
                     self'\<lparr>allocated := True, assignments := insert aid (assignments self')\<rparr>))"

definition assign :: "node \<Rightarrow> string \<Rightarrow> node" where
  "assign self assignment_id = self\<lparr>assignments := insert assignment_id (assignments self)\<rparr>"


section \<open>Reconciliation: \<open>update\<close>\<close>

datatype log_level = FINE | WARNING

record log_entry =
  level :: log_level
  attr :: string
  current_value :: pyval
  new_value :: pyval

text \<open>The logging loop of \<open>update\<close> over \<open>snode.available.items()\<close>.\<close>

fun update_log :: "node \<Rightarrow> node \<Rightarrow> dict \<Rightarrow> log_entry list" where
  "update_log self snode [] = []"
| "update_log self snode ((a, new) # items) =
     (let cur = dict_get (available self) a in
        if cur \<noteq> new
        then \<lparr>level = (if cur = PyNone \<or> assignments snode \<noteq> {} then FINE else WARNING),
              attr = a, current_value = cur, new_value = new\<rparr>
             # update_log self snode items
        else update_log self snode items)"

text \<open>\<open>Node.update\<close>: the log records written, and the node afterwards.\<close>

definition update :: "node \<Rightarrow> node \<Rightarrow> log_entry list \<times> node" where
  "update self snode =
     (let logs = update_log self snode (available snode);
          s1 = self\<lparr>available := dict_update (available self) (available snode)\<rparr>;
          s2 = required_setter s1 (required s1 \<or> required snode \<or> assignments snode \<noteq> {});
          s3 = s2\<lparr>assignments := assignments s2 \<union> assignments snode\<rparr>;
          s4 = s3\<lparr>metadata := dict_update (metadata s3) (metadata snode)\<rparr>
      in (logs, s4))"


section \<open>The specification's quantities\<close>

text \<open>
  The specification's packing limit, in its own words: the minimum over the finite
  (\<open>> -1\<close>) \<open>MinimumSpace\<close> values of the constraints, or \<open>iterations\<close> when there is
  none; \<open>toPack\<close> is the smaller of \<open>iterations\<close> and that limit.
\<close>

definition finite_spaces :: "constraint list \<Rightarrow> node \<Rightarrow> int list" where
  "finite_spaces cs node = filter (\<lambda>m. m > -1) (map (\<lambda>c. minimum_space_of c node) cs)"

definition spec_to_pack :: "int \<Rightarrow> constraint list \<Rightarrow> node \<Rightarrow> int" where
  "spec_to_pack iterations cs node =
     (let ms = finite_spaces cs node
      in min iterations (if ms = [] then iterations else Min (set ms)))"

text \<open>
  The reasons of a rejection, in the specification's words: the failure reasons of all
  unsatisfied constraints, in the order of the constraints.
\<close>

definition spec_reasons :: "node \<Rightarrow> constraint list \<Rightarrow> string list" where
  "spec_reasons self cs =
     concat (map (\<lambda>c. result_reasons (satisfied_by_node c self))
                 (filter (\<lambda>c. \<not> truthy (satisfied_by_node c self)) cs))"

text \<open>One unit reserved by one constraint: the node after one \<open>do_decrement\<close>.\<close>

definition decrement_once :: "constraint \<Rightarrow> node \<Rightarrow> node" where
  "decrement_once c s = snd (do_decrement c s)"


text \<open>
  The invariants of the data model: a stored placement group is one the setter's
  pattern accepts, and a node with assignments reads as required.
\<close>

definition pg_ok :: "node \<Rightarrow> bool" where
  "pg_ok self = (case placement_group self of None \<Rightarrow> True | Some v \<Rightarrow> re_match_pg v)"

definition inv_required :: "node \<Rightarrow> bool" where
  "inv_required self = (assignments self \<noteq> {} \<longrightarrow> required self)"


section \<open>Sample nodes and constraints\<close>

text \<open>A planned node with four free slots, as in the specification's scenarios.\<close>

definition node0 :: node where
  "node0 = \<lparr>name = ''htc-1'', hostname = Some ''host-1'', transient_id = ''t-1'',
            state = ''Ready'', exists = False, placement_group = None, managed = True,
            resources = [(''slots'', PyInt 4)], available = [(''slots'', PyInt 4)],
            keep_alive = False, allocated = False, closed = False, metadata = [],
            node_attribute_overrides = [], assignments = {}\<rparr>"

text \<open>A constraint that needs one slot per unit and takes it from \<open>available\<close>.\<close>

definition free_slots :: "node \<Rightarrow> int" where
  "free_slots n = (case dict_get (available n) ''slots'' of PyInt k \<Rightarrow> k | _ \<Rightarrow> 0)"

definition slots_constraint :: constraint where
  "slots_constraint =
     \<lparr>satisfied_by_node =
        (\<lambda>n. if 1 \<le> free_slots n then SatisfiedResult True []
              else SatisfiedResult False [''insufficient slots'']),
      minimum_space_of = free_slots,
      do_decrement =
        (\<lambda>n. if 1 \<le> free_slots n
              then (True, n\<lparr>available :=
                       dict_setitem (available n) ''slots'' (PyInt (free_slots n - 1))\<rparr>)
              else (False, n))\<rparr>"

text \<open>A constraint no node satisfies, with a reason.\<close>

definition gpu_constraint :: constraint where
  "gpu_constraint =
     \<lparr>satisfied_by_node = (\<lambda>n. SatisfiedResult False [''insufficient GPU'']),
      minimum_space_of = (\<lambda>n. 0),
      do_decrement = (\<lambda>n. (False, n))\<rparr>"

text \<open>A constraint no node satisfies, whose result is a plain \<open>False\<close>.\<close>

definition plain_constraint :: constraint where
  "plain_constraint =
     \<lparr>satisfied_by_node = (\<lambda>n. PlainResult False),
      minimum_space_of = (\<lambda>n. 0),
      do_decrement = (\<lambda>n. (False, n))\<rparr>"


text \<open>
  Scenario D of the specification: the working copy holds 16 units of memory, the fresh
  poll of the same node reports 8; neither has assignments.
\<close>

definition node_mem16 :: node where
  "node_mem16 = node0\<lparr>resources := [(''mem'', PyInt 16)], available := [(''mem'', PyInt 16)]\<rparr>"

definition node_mem8 :: node where
  "node_mem8 = node0\<lparr>resources := [(''mem'', PyInt 16)], available := [(''mem'', PyInt 8)],
                     metadata := [(''polled'', PyInt 1)]\<rparr>"


section \<open>Dictionaries and loops\<close>

lemma map_of_dict_setitem: "map_of (dict_setitem d k v) = (map_of d)(k \<mapsto> v)"
  by (induction d k v rule: dict_setitem.induct) auto

lemma map_of_dict_update:
  "distinct (map fst kvs) \<Longrightarrow> map_of (dict_update d kvs) = map_of d ++ map_of kvs"
proof (induction kvs arbitrary: d)
  case Nil
  then show ?case by simp
next
  case (Cons p kvs)
  obtain k v where p: "p = (k, v)" by (cases p)
  from Cons.prems p have nk: "k \<notin> fst ` set kvs" and dk: "distinct (map fst kvs)" by auto
  from nk have none: "map_of kvs k = None" by (simp add: map_of_eq_None_iff)
  have "(map_of d)(k \<mapsto> v) ++ map_of kvs = map_of d ++ map_of ((k, v) # kvs)"
  proof
    fix x
    show "((map_of d)(k \<mapsto> v) ++ map_of kvs) x = (map_of d ++ map_of ((k, v) # kvs)) x"
      using none by (cases "x = k") (simp_all add: map_add_def split: option.split)
  qed
  with Cons.IH [OF dk, of "dict_setitem d k v"] p show ?case
    by (simp only: dict_update.simps map_of_dict_setitem)
qed

lemma fst_dict_setitem: "fst ` set (dict_setitem d k v) = insert k (fst ` set d)"
  by (induction d k v rule: dict_setitem.induct) auto

lemma wf_dict_setitem: "wf_dict d \<Longrightarrow> wf_dict (dict_setitem d k v)"
  unfolding wf_dict_def
  by (induction d k v rule: dict_setitem.induct) (auto simp: fst_dict_setitem)

lemma wf_dict_update: "wf_dict d \<Longrightarrow> wf_dict (dict_update d kvs)"
  by (induction d kvs rule: dict_update.induct) (auto simp: wf_dict_setitem)

lemma update_log_eq:
  "update_log self snode items =
     map (\<lambda>(a, new). \<lparr>level = (if dict_get (available self) a = PyNone \<or> assignments snode \<noteq> {}
                                 then FINE else WARNING),
                         attr = a, current_value = dict_get (available self) a, new_value = new\<rparr>)
         (filter (\<lambda>(a, new). dict_get (available self) a \<noteq> new) items)"
  by (induction self snode items rule: update_log.induct) (auto simp: Let_def)

lemma satisfied_loop_eq:
  "satisfied_loop self cs (u, rs) =
     (u \<or> (\<exists>c\<in>set cs. \<not> truthy (satisfied_by_node c self)),
      rs @ concat (map (\<lambda>c. result_reasons (satisfied_by_node c self))
                       (filter (\<lambda>c. \<not> truthy (satisfied_by_node c self)) cs)))"
  by (induction cs arbitrary: u rs) (auto simp: Let_def)

lemma minimum_space_loop_Some:
  "minimum_space_loop cs node (Some a) = Some (Min (insert a (set (finite_spaces cs node))))"
proof (induction cs arbitrary: a)
  case Nil
  then show ?case by (simp add: finite_spaces_def)
next
  case (Cons c cs)
  let ?S = "set (finite_spaces cs node)"
  have "Min (insert (min a m) ?S) = Min (insert a (insert m ?S))" for m
    by (cases "?S = {}") (simp_all add: min.assoc)
  with Cons show ?case by (simp add: finite_spaces_def Let_def)
qed

lemma minimum_space_loop_None:
  "minimum_space_loop cs node None =
     (if finite_spaces cs node = [] then None else Some (Min (set (finite_spaces cs node))))"
proof (induction cs)
  case Nil
  then show ?case by (simp add: finite_spaces_def)
next
  case (Cons c cs)
  show ?case
  proof (cases "minimum_space_of c node > -1")
    case True
    then show ?thesis
      using minimum_space_loop_Some [of cs node "minimum_space_of c node"]
      by (simp add: finite_spaces_def Let_def)
  next
    case False
    with Cons show ?thesis by (simp add: finite_spaces_def Let_def)
  qed
qed

lemma decrement_times_state:
  "fst (decrement_times c k s) = None \<Longrightarrow>
     snd (decrement_times c k s) = (decrement_once c ^^ k) s"
proof (induction k arbitrary: s)
  case 0
  then show ?case by simp
next
  case (Suc k)
  obtain ok s' where d: "do_decrement c s = (ok, s')" by (cases "do_decrement c s")
  with Suc.prems have ok: "ok" by (cases ok) simp_all
  with d Suc.prems have "fst (decrement_times c k s') = None" by simp
  from Suc.IH [OF this] have ih: "snd (decrement_times c k s') = (decrement_once c ^^ k) s'" .
  have once: "decrement_once c s = s'" using d by (simp add: decrement_once_def)
  have "snd (decrement_times c (Suc k) s) = snd (decrement_times c k s')"
    using d ok by simp
  also have "\<dots> = (decrement_once c ^^ k) (decrement_once c s)"
    using ih once by simp
  also have "\<dots> = (decrement_once c ^^ Suc k) s"
    by (simp only: funpow_Suc_right o_apply)
  finally show ?case .
qed

lemma pack_state:
  "fst (pack cs k s) = None \<Longrightarrow>
     snd (pack cs k s) = foldl (\<lambda>s c. (decrement_once c ^^ k) s) s cs"
proof (induction cs arbitrary: s)
  case Nil
  then show ?case by simp
next
  case (Cons c cs)
  obtain e s' where d: "decrement_times c k s = (e, s')" by (cases "decrement_times c k s")
  with Cons.prems have e: "e = None" by (cases e) simp_all
  with d have s': "s' = (decrement_once c ^^ k) s"
    using decrement_times_state [of c k s] by simp
  from Cons.prems d e have "fst (pack cs k s') = None" by simp
  from Cons.IH [OF this] d e s' show ?case by simp
qed


section \<open>Claims about \<open>decrement\<close>\<close>

text \<open>
  Claim C3. On a closed node, \<open>decrement\<close> returns a \<open>NodeClosed\<close> result whose
  \<open>slots\<close> is the requested \<open>iterations\<close> (for every \<open>iterations\<close>, so also for every
  \<open>iterations \<ge> 1\<close>), whatever the constraints are, and the node it leaves is the node
  it was given: \<open>available\<close>, \<open>assignments\<close> and every other field are unchanged.
\<close>

theorem decrement_closed:
  "closed self \<Longrightarrow>
     decrement self constraints iterations assignment_id uuid =
       (Inr \<lparr>status = ''NodeClosed'', slots = iterations, reasons = None\<rparr>, self)"
  by (simp add: decrement_def)

text \<open>Scenario B of the specification: a closed node with four free slots, three units asked.\<close>

theorem decrement_closed_witness:
  "closed (node0\<lparr>closed := True\<rparr>) \<and>
   decrement (node0\<lparr>closed := True\<rparr>) [slots_constraint] 3 None ''u-1'' =
     (Inr \<lparr>status = ''NodeClosed'', slots = 3, reasons = None\<rparr>, node0\<lparr>closed := True\<rparr>) \<and>
   available (snd (decrement (node0\<lparr>closed := True\<rparr>) [slots_constraint] 3 None ''u-1''))
     = [(''slots'', PyInt 4)] \<and>
   assignments (snd (decrement (node0\<lparr>closed := True\<rparr>) [slots_constraint] 3 None ''u-1'')) = {}"
proof -
  have c: "closed (node0\<lparr>closed := True\<rparr>)" by simp
  show ?thesis
    using decrement_closed [OF c, of "[slots_constraint]" 3 None "''u-1''"] c
    by (simp add: node0_def)
qed

text \<open>
  Claim C9. With no constraints \<open>minimum_space\<close> is 1, not the sentinel \<open>-1\<close>: on a node
  that is not closed, \<open>decrement\<close> with an empty constraint list and \<open>iterations \<ge> 1\<close>
  returns \<open>success\<close> with \<open>slots = 1\<close>, also when more than one unit was asked, and
  records the allocation.
\<close>

theorem decrement_no_constraints:
  assumes "\<not> closed self" and "1 \<le> iterations"
  shows "minimum_space [] self = 1 \<and>
         decrement self [] iterations assignment_id uuid =
           (Inr \<lparr>status = ''success'', slots = 1, reasons = None\<rparr>,
            self\<lparr>allocated := True,
                 assignments := insert (chosen_id assignment_id uuid) (assignments self)\<rparr>)"
  using assms by (simp add: decrement_def minimum_space_def)

theorem decrement_no_constraints_witness:
  "\<not> closed node0 \<and> (1::int) \<le> 5 \<and> minimum_space [] node0 = 1 \<and>
   decrement node0 [] 5 None ''u-1'' =
     (Inr \<lparr>status = ''success'', slots = 1, reasons = None\<rparr>,
      node0\<lparr>allocated := True, assignments := {''u-1''}\<rparr>)"
proof -
  have o: "\<not> closed node0" by (simp add: node0_def)
  have i: "(1::int) \<le> 5" by simp
  show ?thesis
    using decrement_no_constraints [OF o i, of None "''u-1''"] o
    by (simp add: chosen_id_def node0_def)
qed

lemma finite_spaces_gt: "m \<in> set (finite_spaces cs node) \<Longrightarrow> -1 < m"
  by (simp add: finite_spaces_def)

lemma minimum_space_nonempty:
  "cs \<noteq> [] \<Longrightarrow>
     minimum_space cs node =
       (if finite_spaces cs node = [] then -1 else Min (set (finite_spaces cs node)))"
  by (simp add: minimum_space_def minimum_space_loop_None)

lemma to_pack_nonempty:
  assumes "cs \<noteq> []"
  shows "min iterations (if minimum_space cs node = -1 then iterations else minimum_space cs node)
           = spec_to_pack iterations cs node"
proof (cases "finite_spaces cs node = []")
  case True
  with assms show ?thesis
    by (simp add: minimum_space_nonempty spec_to_pack_def)
next
  case False
  then have "Min (set (finite_spaces cs node)) \<in> set (finite_spaces cs node)"
    by (intro Min_in) simp_all
  then have "Min (set (finite_spaces cs node)) \<noteq> -1"
    using finite_spaces_gt by fastforce
  with assms False show ?thesis
    by (simp add: minimum_space_nonempty spec_to_pack_def)
qed

lemma satisfied_loop_all:
  "\<forall>c\<in>set cs. truthy (satisfied_by_node c self) \<Longrightarrow>
     satisfied_loop self cs (False, []) = (False, [])"
  by (simp add: satisfied_loop_eq)

text \<open>
  Claim C1, amended. On a node that is not closed, with a non-empty constraint list
  whose constraints are all satisfied, \<open>decrement\<close> applies \<open>do_decrement\<close> of every
  constraint exactly \<open>toPack\<close> times, where \<open>toPack\<close> is the smaller of \<open>iterations\<close> and
  the minimum of the finite (\<open>> -1\<close>) \<open>MinimumSpace\<close> values, or \<open>iterations\<close> when
  there is no finite value. When all these calls succeed it returns \<open>success\<close> with
  \<open>slots = toPack\<close>, marks the node allocated and records the assignment;
  \<open>toPack \<le> iterations\<close>. (With an empty list the limit is 1: claim C9.)
\<close>

theorem decrement_packs_to_pack:
  assumes "\<not> closed self"
      and "constraints \<noteq> []"
      and "\<forall>c\<in>set constraints. truthy (satisfied_by_node c self)"
      and "fst (pack constraints (nat (spec_to_pack iterations constraints self)) self) = None"
  shows "decrement self constraints iterations assignment_id uuid =
           (Inr \<lparr>status = ''success'', slots = spec_to_pack iterations constraints self,
                 reasons = None\<rparr>,
            (foldl (\<lambda>s c. (decrement_once c ^^ nat (spec_to_pack iterations constraints self)) s)
                   self constraints)
              \<lparr>allocated := True,
               assignments := insert (chosen_id assignment_id uuid)
                 (assignments (foldl (\<lambda>s c. (decrement_once c ^^ nat (spec_to_pack iterations constraints self)) s)
                                     self constraints))\<rparr>)
         \<and> spec_to_pack iterations constraints self \<le> iterations"
proof -
  let ?k = "spec_to_pack iterations constraints self"
  obtain e s' where p: "pack constraints (nat ?k) self = (e, s')"
    by (cases "pack constraints (nat ?k) self")
  with assms(4) have e: "e = None" by simp
  from pack_state [OF assms(4)] p
  have s': "s' = foldl (\<lambda>s c. (decrement_once c ^^ nat ?k) s) self constraints" by simp
  have le: "?k \<le> iterations" by (simp add: spec_to_pack_def Let_def)
  from assms(1) p e show ?thesis
    unfolding s' [symmetric]
    by (simp add: decrement_def satisfied_loop_all [OF assms(3)] to_pack_nonempty [OF assms(2)] le)
qed

text \<open>
  Scenario A of the specification: four free slots, one constraint of minimum space 4,
  ten units asked; four are packed and no slot is left.
\<close>

theorem decrement_packs_to_pack_witness:
  "\<not> closed node0 \<and> [slots_constraint] \<noteq> [] \<and>
   truthy (satisfied_by_node slots_constraint node0) \<and>
   spec_to_pack 10 [slots_constraint] node0 = 4 \<and>
   fst (pack [slots_constraint] (nat 4) node0) = None \<and>
   decrement node0 [slots_constraint] 10 None ''u-1'' =
     (Inr \<lparr>status = ''success'', slots = 4, reasons = None\<rparr>,
      node0\<lparr>available := [(''slots'', PyInt 0)], allocated := True, assignments := {''u-1''}\<rparr>) \<and>
   (4::int) \<le> 10"
proof -
  have o: "\<not> closed node0" by (simp add: node0_def)
  have ne: "[slots_constraint] \<noteq> []" by simp
  have s: "truthy (satisfied_by_node slots_constraint node0)"
    by (simp add: slots_constraint_def free_slots_def dict_get_def node0_def)
  then have a: "\<forall>c\<in>set [slots_constraint]. truthy (satisfied_by_node c node0)" by simp
  have k: "spec_to_pack 10 [slots_constraint] node0 = 4"
    by (simp add: spec_to_pack_def finite_spaces_def slots_constraint_def free_slots_def
                  dict_get_def node0_def)
  have once: "decrement_once slots_constraint (node0\<lparr>available := [(''slots'', PyInt (1 + j))]\<rparr>)
                = node0\<lparr>available := [(''slots'', PyInt j)]\<rparr>" if "0 \<le> j" for j
    using that by (simp add: decrement_once_def slots_constraint_def free_slots_def dict_get_def)
  have n0: "node0 = node0\<lparr>available := [(''slots'', PyInt 4)]\<rparr>" by (simp add: node0_def)
  have f: "(decrement_once slots_constraint ^^ nat 4) node0 = node0\<lparr>available := [(''slots'', PyInt 0)]\<rparr>"
    using once [of 3] once [of 2] once [of 1] once [of 0] n0
    by (simp add: eval_nat_numeral)
  have step: "do_decrement slots_constraint (node0\<lparr>available := [(''slots'', PyInt (1 + j))]\<rparr>)
                = (True, node0\<lparr>available := [(''slots'', PyInt j)]\<rparr>)" if "0 \<le> j" for j
    using that by (simp add: slots_constraint_def free_slots_def dict_get_def)
  have p: "fst (pack [slots_constraint] (nat 4) node0) = None"
    using step [of 3] step [of 2] step [of 1] step [of 0] n0
    by (simp add: eval_nat_numeral)
  have p': "fst (pack [slots_constraint] (nat (spec_to_pack 10 [slots_constraint] node0)) node0) = None"
    using p k by simp
  show ?thesis
    using decrement_packs_to_pack [OF o ne a p', of None "''u-1''"] o s k p f
    by (simp add: chosen_id_def node0_def)
qed

text \<open>
  Claim C1 as stated fails on the empty constraint list, where every constraint is
  satisfied and none returns a finite value: two units are asked, the stated \<open>toPack\<close>
  is 2, and \<open>decrement\<close> reports one slot.
\<close>

theorem decrement_packs_to_pack_counterexample:
  "\<not> closed node0 \<and>
   fst (decrement node0 [] 2 None ''u-1'') =
     Inr \<lparr>status = ''success'', slots = 1, reasons = None\<rparr> \<and>
   spec_to_pack 2 [] node0 = 2"
  by (simp add: decrement_def minimum_space_def spec_to_pack_def finite_spaces_def node0_def)

text \<open>
  When a \<open>do_decrement\<close> call returns false, the \<open>assert\<close> fails and \<open>decrement\<close> raises.
\<close>

lemma decrement_assertion:
  assumes "\<not> closed self"
      and "constraints \<noteq> []"
      and "\<forall>c\<in>set constraints. truthy (satisfied_by_node c self)"
      and "fst (pack constraints (nat (spec_to_pack iterations constraints self)) self) = Some e"
  shows "fst (decrement self constraints iterations assignment_id uuid) = Inl e"
proof -
  let ?k = "spec_to_pack iterations constraints self"
  obtain e' s' where p: "pack constraints (nat ?k) self = (e', s')"
    by (cases "pack constraints (nat ?k) self")
  with assms(4) have e: "e' = Some e" by simp
  from assms(1) p e show ?thesis
    by (simp add: decrement_def satisfied_loop_all [OF assms(3)] to_pack_nonempty [OF assms(2)])
qed

lemma decrement_unsatisfied:
  assumes "\<not> closed self"
      and "\<exists>c\<in>set constraints. \<not> truthy (satisfied_by_node c self)"
  shows "decrement self constraints iterations assignment_id uuid =
           (Inr \<lparr>status = ''NodeRejected'', slots = iterations,
                 reasons = Some (spec_reasons self constraints)\<rparr>,
            self)"
  using assms by (simp add: decrement_def satisfied_loop_eq spec_reasons_def)

text \<open>
  Claim C2, amended. On a node that is not closed, when at least one constraint is
  unsatisfied, \<open>decrement\<close> returns a \<open>NodeRejected\<close> result whose reasons are the
  reasons of all unsatisfied constraints, in order, whatever the other constraints
  say, and leaves the node as it was. The reasons are non-empty exactly when an
  unsatisfied constraint's result carries a reason.
\<close>

theorem decrement_rejected:
  assumes "\<not> closed self"
      and "\<exists>c\<in>set constraints. \<not> truthy (satisfied_by_node c self)"
  shows "decrement self constraints iterations assignment_id uuid =
           (Inr \<lparr>status = ''NodeRejected'', slots = iterations,
                 reasons = Some (spec_reasons self constraints)\<rparr>,
            self)
         \<and> (spec_reasons self constraints \<noteq> [] \<longleftrightarrow>
              (\<exists>c\<in>set constraints. \<not> truthy (satisfied_by_node c self)
                                      \<and> result_reasons (satisfied_by_node c self) \<noteq> []))"
  using decrement_unsatisfied [OF assms] by (auto simp: spec_reasons_def)

text \<open>
  Every constraint is evaluated: both rejections of the GPU constraint are reported,
  the one after the plain \<open>False\<close> too.
\<close>

theorem decrement_rejected_witness:
  "\<not> closed node0 \<and>
   \<not> truthy (satisfied_by_node gpu_constraint node0) \<and>
   decrement node0 [slots_constraint, gpu_constraint, plain_constraint, gpu_constraint] 2 None ''u-1'' =
     (Inr \<lparr>status = ''NodeRejected'', slots = 2,
           reasons = Some [''insufficient GPU'', ''insufficient GPU'']\<rparr>, node0)"
proof -
  have o: "\<not> closed node0" by (simp add: node0_def)
  have g: "\<not> truthy (satisfied_by_node gpu_constraint node0)" by (simp add: gpu_constraint_def)
  then have u: "\<exists>c\<in>set [slots_constraint, gpu_constraint, plain_constraint, gpu_constraint].
                  \<not> truthy (satisfied_by_node c node0)" by simp
  have s: "truthy (satisfied_by_node slots_constraint node0)"
    by (simp add: slots_constraint_def free_slots_def dict_get_def node0_def)
  have p: "\<not> truthy (satisfied_by_node plain_constraint node0)" by (simp add: plain_constraint_def)
  have r: "spec_reasons node0 [slots_constraint, gpu_constraint, plain_constraint, gpu_constraint]
             = [''insufficient GPU'', ''insufficient GPU'']"
    using s g p by (simp add: spec_reasons_def gpu_constraint_def plain_constraint_def)
  show ?thesis
    using decrement_rejected [OF o u, of 2 None "''u-1''"] o g r by simp
qed

text \<open>
  Claim C2 as stated fails where the only unsatisfied constraint returns a result
  without reasons: the rejection's reasons are empty.
\<close>

theorem decrement_rejected_counterexample:
  "\<not> closed node0 \<and>
   \<not> truthy (satisfied_by_node plain_constraint node0) \<and>
   fst (decrement node0 [plain_constraint] 1 None ''u-1'') =
     Inr \<lparr>status = ''NodeRejected'', slots = 1, reasons = Some []\<rparr>"
  by (simp add: decrement_def plain_constraint_def node0_def)

text \<open>
  Claim C4, amended. Every \<open>NodeRejected\<close> result that \<open>decrement\<close> returns has
  \<open>slots\<close> equal to the requested \<open>iterations\<close>.
\<close>

theorem rejected_slots:
  assumes "fst (decrement self constraints iterations assignment_id uuid) = Inr r"
      and "status r = ''NodeRejected''"
  shows "slots r = iterations"
proof (cases "closed self")
  case True
  with assms show ?thesis by (auto simp: decrement_def)
next
  case False
  show ?thesis
  proof (cases "\<exists>c\<in>set constraints. \<not> truthy (satisfied_by_node c self)")
    case True
    from decrement_unsatisfied [OF False True] assms(1) show ?thesis by auto
  next
    case False
    with \<open>\<not> closed self\<close> assms show ?thesis
      by (auto simp: decrement_def satisfied_loop_eq Let_def split: prod.splits option.splits)
  qed
qed

theorem rejected_slots_witness:
  "fst (decrement node0 [gpu_constraint] 3 None ''u-1'') =
     Inr \<lparr>status = ''NodeRejected'', slots = 3, reasons = Some [''insufficient GPU'']\<rparr> \<and>
   status \<lparr>status = ''NodeRejected'', slots = 3, reasons = Some [''insufficient GPU'']\<rparr>
     = ''NodeRejected'' \<and>
   slots \<lparr>status = ''NodeRejected'', slots = 3, reasons = Some [''insufficient GPU'']\<rparr> = (3::int)"
proof -
  let ?r = "\<lparr>status = ''NodeRejected'', slots = 3, reasons = Some [''insufficient GPU'']\<rparr>"
  have h1: "fst (decrement node0 [gpu_constraint] 3 None ''u-1'') = Inr ?r"
    by (simp add: decrement_def gpu_constraint_def node0_def)
  have h2: "status ?r = ''NodeRejected''" by simp
  show ?thesis using rejected_slots [OF h1 h2] h1 h2 by simp
qed

text \<open>
  Claim C4 as stated fails: a rejection of a request of three units reports three
  slots, not 0.
\<close>

theorem rejected_slots_counterexample:
  "map_sum id status (fst (decrement node0 [gpu_constraint] 3 None ''u-1'')) = Inr ''NodeRejected'' \<and>
   map_sum id slots (fst (decrement node0 [gpu_constraint] 3 None ''u-1'')) = Inr 3 \<and>
   (3::int) \<noteq> 0"
  by (simp add: decrement_def gpu_constraint_def node0_def)

section \<open>Claims about the placement group\<close>

text \<open>
  What the matcher accepts: the non-empty strings over the character class, and those
  followed by one newline.
\<close>

lemma pg_rest_iff:
  "pg_rest v \<longleftrightarrow> list_all pg_char v \<or> (\<exists>b. list_all pg_char b \<and> v = b @ [CHR 0x0A])"
proof (induction v)
  case Nil
  then show ?case by simp
next
  case (Cons c cs)
  show ?case
  proof (cases "pg_char c")
    case True
    have "(\<exists>b. list_all pg_char b \<and> c # cs = b @ [CHR 0x0A])
            \<longleftrightarrow> (\<exists>b. list_all pg_char b \<and> cs = b @ [CHR 0x0A])"
    proof
      assume "\<exists>b. list_all pg_char b \<and> c # cs = b @ [CHR 0x0A]"
      then obtain b where b: "list_all pg_char b" "c # cs = b @ [CHR 0x0A]" by blast
      with True have "b \<noteq> []" by (auto simp: pg_char_def)
      then obtain b' where "b = c # b'" using b(2) by (cases b) auto
      with b show "\<exists>b. list_all pg_char b \<and> cs = b @ [CHR 0x0A]" by auto
    next
      assume "\<exists>b. list_all pg_char b \<and> cs = b @ [CHR 0x0A]"
      then obtain b where "list_all pg_char b" "cs = b @ [CHR 0x0A]" by blast
      with True have "list_all pg_char (c # b) \<and> c # cs = (c # b) @ [CHR 0x0A]" by simp
      then show "\<exists>b. list_all pg_char b \<and> c # cs = b @ [CHR 0x0A]" by blast
    qed
    with True Cons show ?thesis by simp
  next
    case False
    have "(\<exists>b. list_all pg_char b \<and> c # cs = b @ [CHR 0x0A]) \<longleftrightarrow> (c = CHR 0x0A \<and> cs = [])"
    proof
      assume "\<exists>b. list_all pg_char b \<and> c # cs = b @ [CHR 0x0A]"
      then obtain b where b: "list_all pg_char b" "c # cs = b @ [CHR 0x0A]" by blast
      with False show "c = CHR 0x0A \<and> cs = []" by (cases b) auto
    next
      assume "c = CHR 0x0A \<and> cs = []"
      then have "list_all pg_char [] \<and> c # cs = [] @ [CHR 0x0A]" by simp
      then show "\<exists>b. list_all pg_char b \<and> c # cs = b @ [CHR 0x0A]" by blast
    qed
    with False show ?thesis by simp
  qed
qed

lemma re_match_pg_iff:
  "re_match_pg v \<longleftrightarrow>
     (v \<noteq> [] \<and> list_all pg_char v)
     \<or> (\<exists>b. b \<noteq> [] \<and> list_all pg_char b \<and> v = b @ [CHR 0x0A])"
proof (cases v)
  case Nil
  then show ?thesis by simp
next
  case (Cons c cs)
  show ?thesis
  proof (cases "pg_char c")
    case True
    have "(\<exists>b. b \<noteq> [] \<and> list_all pg_char b \<and> c # cs = b @ [CHR 0x0A])
            \<longleftrightarrow> (\<exists>b. list_all pg_char b \<and> cs = b @ [CHR 0x0A])"
    proof
      assume "\<exists>b. b \<noteq> [] \<and> list_all pg_char b \<and> c # cs = b @ [CHR 0x0A]"
      then obtain b where b: "b \<noteq> []" "list_all pg_char b" "c # cs = b @ [CHR 0x0A]" by blast
      then obtain b' where "b = c # b'" by (cases b) auto
      with b show "\<exists>b. list_all pg_char b \<and> cs = b @ [CHR 0x0A]" by auto
    next
      assume "\<exists>b. list_all pg_char b \<and> cs = b @ [CHR 0x0A]"
      then obtain b where "list_all pg_char b" "cs = b @ [CHR 0x0A]" by blast
      with True have "c # b \<noteq> [] \<and> list_all pg_char (c # b) \<and> c # cs = (c # b) @ [CHR 0x0A]"
        by simp
      then show "\<exists>b. b \<noteq> [] \<and> list_all pg_char b \<and> c # cs = b @ [CHR 0x0A]" by blast
    qed
    with True Cons show ?thesis by (simp add: pg_rest_iff)
  next
    case False
    have "\<not> (\<exists>b. b \<noteq> [] \<and> list_all pg_char b \<and> c # cs = b @ [CHR 0x0A])"
    proof
      assume "\<exists>b. b \<noteq> [] \<and> list_all pg_char b \<and> c # cs = b @ [CHR 0x0A]"
      then obtain b where b: "b \<noteq> []" "list_all pg_char b" "c # cs = b @ [CHR 0x0A]" by blast
      with False show False by (cases b) auto
    qed
    with False Cons show ?thesis by simp
  qed
qed

text \<open>
  The transitions of the setter that hold as the specification says: a valid value on
  an unset placement group is stored; a value that the pattern rejects, so every value
  with a space, a \<open>!\<close> or any other character outside the class that is not a newline,
  raises; re-setting the stored value changes nothing; changing a set placement group
  of an existing node raises.
\<close>

lemma placement_group_unset_valid:
  assumes "\<not> truthy_str (placement_group self)" and "v \<noteq> []" and "list_all pg_char v"
  shows "placement_group_setter self (Some v) = (Inr (), self\<lparr>placement_group := Some v\<rparr>)"
  using assms by (simp add: placement_group_setter_def re_match_pg_iff)

lemma placement_group_no_match:
  assumes "v \<noteq> []" and "\<not> re_match_pg v"
  shows "placement_group_setter self (Some v) = (Inl RuntimeError, self)"
  using assms by (simp add: placement_group_setter_def Let_def)

lemma placement_group_bad_char:
  assumes "c \<in> set v" and "\<not> pg_char c" and "c \<noteq> CHR 0x0A"
  shows "placement_group_setter self (Some v) = (Inl RuntimeError, self)"
proof -
  from assms(1) have ne: "v \<noteq> []" by auto
  from assms have "\<not> list_all pg_char v" by (auto simp: list_all_iff)
  moreover have "\<not> (\<exists>b. b \<noteq> [] \<and> list_all pg_char b \<and> v = b @ [CHR 0x0A])"
    using assms by (auto simp: list_all_iff)
  ultimately have "\<not> re_match_pg v" by (simp add: re_match_pg_iff)
  with ne show ?thesis by (rule placement_group_no_match)
qed

lemma placement_group_space_or_bang:
  assumes "CHR '' '' \<in> set v \<or> CHR ''!'' \<in> set v"
  shows "placement_group_setter self (Some v) = (Inl RuntimeError, self)"
proof -
  have "\<not> pg_char (CHR '' '')" "\<not> pg_char (CHR ''!'')" by (simp_all add: pg_char_def)
  with assms show ?thesis
    using placement_group_bad_char [of "CHR '' ''" v self]
          placement_group_bad_char [of "CHR ''!''" v self]
    by auto
qed

lemma placement_group_same:
  assumes "placement_group self = Some v" and "re_match_pg v"
  shows "placement_group_setter self (Some v) = (Inr (), self)"
proof -
  from assms(2) have "v \<noteq> []" by auto
  moreover from assms(1) have "self\<lparr>placement_group := Some v\<rparr> = self" by (cases self) simp
  ultimately show ?thesis using assms by (simp add: placement_group_setter_def)
qed

lemma placement_group_change_existing:
  assumes "placement_group self = Some v" and "v \<noteq> []" and "exists self" and "v' \<noteq> Some v"
  shows "placement_group_setter self v' = (Inl RuntimeError, self)"
  using assms by (auto simp: placement_group_setter_def)

text \<open>The setter and the constructor keep the stored placement group valid.\<close>

lemma placement_group_setter_ok:
  "pg_ok self \<Longrightarrow> pg_ok (snd (placement_group_setter self v))"
  by (cases v) (auto simp: pg_ok_def placement_group_setter_def Let_def)

lemma Node_init_ok: "Node_init nm hn tid st ex pg mg res ka = Inr n \<Longrightarrow> pg_ok n"
  by (cases pg)
     (auto simp: Node_init_def pg_ok_def placement_group_setter_def Let_def split: if_splits)

text \<open>
  Claim C5. The claim's second part says that every non-empty value with a character
  outside \<open>[A-Za-z0-9_-]\<close> raises. The setter's pattern ends in \<open>$\<close>, which also
  matches before a final newline: on a node whose placement group is unset, the value
  \<open>"a\n"\<close>, whose newline is outside the class, is accepted and stored.
\<close>

theorem placement_group_trailing_newline:
  "placement_group node0 = None \<and>
   \<not> pg_char (CHR 0x0A) \<and>
   CHR 0x0A \<in> set [CHR ''a'', CHR 0x0A] \<and>
   placement_group_setter node0 (Some [CHR ''a'', CHR 0x0A]) =
     (Inr (), node0\<lparr>placement_group := Some [CHR ''a'', CHR 0x0A]\<rparr>)"
  by (simp add: placement_group_setter_def pg_char_def node0_def)

section \<open>Claims about \<open>update\<close>\<close>

lemma dict_get_update:
  assumes "wf_dict kvs" and "(k, v) \<in> set kvs"
  shows "dict_get (dict_update d kvs) k = v"
proof -
  from assms have "map_of kvs k = Some v" by (simp add: wf_dict_def)
  with assms(1) show ?thesis
    by (simp add: dict_get_def wf_dict_def map_of_dict_update)
qed

lemma update_fields:
  "available (snd (update self snode)) = dict_update (available self) (available snode)"
  "metadata (snd (update self snode)) = dict_update (metadata self) (metadata snode)"
  "assignments (snd (update self snode)) = assignments self \<union> assignments snode"
  "allocated (snd (update self snode)) = (required self \<or> required snode \<or> assignments snode \<noteq> {})"
  "fst (update self snode) = update_log self snode (available snode)"
  by (simp_all add: update_def required_setter_def required_def Let_def)

text \<open>
  Claim C6. For nodes \<open>self\<close> and \<open>snode\<close> (whose \<open>available\<close> and \<open>metadata\<close> are
  dictionaries, with no key twice), \<open>update\<close> overwrites \<open>self.available\<close> key by key
  with the items of \<open>snode.available\<close>, so every key of \<open>snode\<close> ends with \<open>snode\<close>'s
  value; sets \<open>_allocated\<close>, and with it \<open>required\<close>, to the disjunction of
  \<open>self.required\<close>, \<open>snode.required\<close> and the non-emptiness of \<open>snode.assignments\<close>;
  adds \<open>snode\<close>'s assignments; merges \<open>snode\<close>'s metadata; and logs each key whose
  value changes, at level \<open>FINE\<close> when the prior value was \<open>None\<close> or \<open>snode\<close> has
  assignments, at level \<open>WARNING\<close> otherwise.
\<close>

theorem update_merges:
  assumes "wf_dict (available snode)" and "wf_dict (metadata snode)"
  shows "map_of (available (snd (update self snode)))
           = map_of (available self) ++ map_of (available snode)
       \<and> ((k, v) \<in> set (available snode) \<longrightarrow> dict_get (available (snd (update self snode))) k = v)
       \<and> allocated (snd (update self snode))
           = (required self \<or> required snode \<or> assignments snode \<noteq> {})
       \<and> required (snd (update self snode))
           = (required self \<or> required snode \<or> assignments snode \<noteq> {})
       \<and> assignments (snd (update self snode)) = assignments self \<union> assignments snode
       \<and> map_of (metadata (snd (update self snode)))
           = map_of (metadata self) ++ map_of (metadata snode)
       \<and> fst (update self snode)
           = map (\<lambda>(a, new).
                    \<lparr>level = (if dict_get (available self) a = PyNone \<or> assignments snode \<noteq> {}
                              then FINE else WARNING),
                     attr = a, current_value = dict_get (available self) a, new_value = new\<rparr>)
                 (filter (\<lambda>(a, new). dict_get (available self) a \<noteq> new) (available snode))"
proof -
  have a: "map_of (available (snd (update self snode)))
             = map_of (available self) ++ map_of (available snode)"
    using assms(1) by (simp add: update_fields wf_dict_def map_of_dict_update)
  have b: "(k, v) \<in> set (available snode) \<longrightarrow> dict_get (available (snd (update self snode))) k = v"
    using assms(1) by (simp add: update_fields dict_get_update)
  have c: "allocated (snd (update self snode))
             = (required self \<or> required snode \<or> assignments snode \<noteq> {})"
    by (simp add: update_fields)
  have d: "required (snd (update self snode))
             = (required self \<or> required snode \<or> assignments snode \<noteq> {})"
    by (auto simp: update_def required_setter_def required_def Let_def)
  have e: "assignments (snd (update self snode)) = assignments self \<union> assignments snode"
    by (simp add: update_fields)
  have f: "map_of (metadata (snd (update self snode)))
             = map_of (metadata self) ++ map_of (metadata snode)"
    using assms(2) by (simp add: update_fields wf_dict_def map_of_dict_update)
  have g: "fst (update self snode)
           = map (\<lambda>(a, new).
                    \<lparr>level = (if dict_get (available self) a = PyNone \<or> assignments snode \<noteq> {}
                              then FINE else WARNING),
                     attr = a, current_value = dict_get (available self) a, new_value = new\<rparr>)
                 (filter (\<lambda>(a, new). dict_get (available self) a \<noteq> new) (available snode))"
    by (simp only: update_fields update_log_eq)
  from a b c d e f g show ?thesis by blast
qed

text \<open>Scenario D: \<open>mem\<close> goes from 16 to 8 and the change is logged as a warning.\<close>

theorem update_merges_witness:
  "wf_dict (available node_mem8) \<and> wf_dict (metadata node_mem8) \<and>
   (''mem'', PyInt 8) \<in> set (available node_mem8) \<and>
   dict_get (available node_mem16) ''mem'' = PyInt 16 \<and>
   assignments node_mem16 = {} \<and> assignments node_mem8 = {} \<and>
   dict_get (available (snd (update node_mem16 node_mem8))) ''mem'' = PyInt 8 \<and>
   required (snd (update node_mem16 node_mem8)) = False \<and>
   assignments (snd (update node_mem16 node_mem8)) = {} \<and>
   fst (update node_mem16 node_mem8) =
     [\<lparr>level = WARNING, attr = ''mem'', current_value = PyInt 16, new_value = PyInt 8\<rparr>]"
proof -
  have h1: "wf_dict (available node_mem8)" by (simp add: wf_dict_def node_mem8_def node0_def)
  have h2: "wf_dict (metadata node_mem8)" by (simp add: wf_dict_def node_mem8_def node0_def)
  have m: "(''mem'', PyInt 8) \<in> set (available node_mem8)" by (simp add: node_mem8_def node0_def)
  have g: "dict_get (available node_mem16) ''mem'' = PyInt 16"
    by (simp add: dict_get_def node_mem16_def node0_def)
  have av: "available node_mem8 = [(''mem'', PyInt 8)]" by (simp add: node_mem8_def node0_def)
  have as: "assignments node_mem16 = {}" "assignments node_mem8 = {}"
    by (simp_all add: node_mem16_def node_mem8_def node0_def)
  have rq: "required node_mem16 = False" "required node_mem8 = False"
    by (simp_all add: required_def node_mem16_def node_mem8_def node0_def)
  show ?thesis
    using update_merges [OF h1 h2, of node_mem16 "''mem''" "PyInt 8"] h1 h2 m g av as rq
    by simp
qed

section \<open>Claims about the flags\<close>

lemma closed_attempts_closed: "closed self \<Longrightarrow> closed (closed_attempts self vs)"
  by (induction vs arbitrary: self) (simp_all add: closed_setter_def)

text \<open>
  Claim C8. The \<open>closed\<close> flag is monotonic: on a closed node, setting \<open>closed\<close> to false
  raises \<open>RuntimeError\<close> and leaves the node as it was, and after any sequence of
  attempts the flag is still true; setting it to true always succeeds; setting it to
  false on a node that is not closed succeeds and changes nothing.
\<close>

theorem closed_monotonic:
  "(closed self \<longrightarrow> closed_setter self False = (Inl RuntimeError, self)) \<and>
   (closed self \<longrightarrow> closed (closed_attempts self vs)) \<and>
   closed_setter self True = (Inr (), self\<lparr>closed := True\<rparr>) \<and>
   (\<not> closed self \<longrightarrow> closed_setter self False = (Inr (), self))"
  by (simp add: closed_setter_def closed_attempts_closed)

theorem closed_monotonic_witness:
  "closed (node0\<lparr>closed := True\<rparr>) \<and>
   closed_setter (node0\<lparr>closed := True\<rparr>) False = (Inl RuntimeError, node0\<lparr>closed := True\<rparr>) \<and>
   closed (closed_attempts (node0\<lparr>closed := True\<rparr>) [False, True, False]) \<and>
   closed_setter node0 True = (Inr (), node0\<lparr>closed := True\<rparr>) \<and>
   \<not> closed node0 \<and>
   closed_setter node0 False = (Inr (), node0)"
proof -
  have c: "closed (node0\<lparr>closed := True\<rparr>)" by simp
  have o: "\<not> closed node0" by (simp add: node0_def)
  show ?thesis
    using closed_monotonic [of "node0\<lparr>closed := True\<rparr>" "[False, True, False]"]
          closed_monotonic [of node0 "[]"] c o
    by simp
qed

text \<open>
  Claim C10. The setter of \<open>required\<close> writes only \<open>_allocated\<close>, and the getter is the
  disjunction of \<open>keep_alive\<close>, \<open>_allocated\<close> and a non-empty \<open>assignments\<close>: on a node
  with \<open>keep_alive\<close> or with assignments, \<open>required = False\<close> clears \<open>_allocated\<close> and
  \<open>required\<close> still reads true, as before.
\<close>

theorem required_setter_false:
  "keep_alive self \<or> assignments self \<noteq> {} \<Longrightarrow>
     allocated (required_setter self False) = False \<and>
     required (required_setter self False) \<and>
     required (required_setter self False) = required self"
  by (auto simp: required_def required_setter_def)

theorem required_setter_false_witness:
  "(keep_alive (node0\<lparr>assignments := {''job-1''}\<rparr>)
      \<or> assignments (node0\<lparr>assignments := {''job-1''}\<rparr>) \<noteq> {}) \<and>
   allocated (required_setter (node0\<lparr>assignments := {''job-1''}\<rparr>) False) = False \<and>
   required (required_setter (node0\<lparr>assignments := {''job-1''}\<rparr>) False) \<and>
   required (node0\<lparr>assignments := {''job-1''}\<rparr>)"
proof -
  have h: "keep_alive (node0\<lparr>assignments := {''job-1''}\<rparr>)
             \<or> assignments (node0\<lparr>assignments := {''job-1''}\<rparr>) \<noteq> {}" by simp
  show ?thesis using required_setter_false [OF h] h by blast
qed

lemma inv_required_all: "inv_required self"
  by (simp add: inv_required_def required_def)

text \<open>A clone starts without assignments, not allocated and open.\<close>

lemma clone_fresh:
  "clone self tid = Inr n \<Longrightarrow> assignments n = {} \<and> allocated n = False \<and> closed n = False"
  by (auto simp: clone_def Node_init_def placement_group_setter_def Let_def
           split: sum.splits prod.splits if_splits)

text \<open>
  Claim C7. A node whose \<open>assignments\<close> set is non-empty reads \<open>required\<close> as true, and
  this holds of the node that \<open>decrement\<close>, \<open>assign\<close>, \<open>update\<close>, the setter of
  \<open>required\<close> and \<open>clone\<close> leave or return; after \<open>assign\<close> the node is required.
\<close>

theorem assignments_imply_required:
  "inv_required self
   \<and> inv_required (snd (decrement self constraints iterations assignment_id uuid))
   \<and> inv_required (assign self a) \<and> required (assign self a)
   \<and> inv_required (snd (update self snode))
   \<and> inv_required (required_setter self v)
   \<and> (case clone self tid of Inl e \<Rightarrow> True | Inr n \<Rightarrow> inv_required n)"
  by (simp add: inv_required_all required_def assign_def split: sum.split)

theorem assignments_imply_required_witness:
  "assignments (node0\<lparr>assignments := {''job-1''}\<rparr>) \<noteq> {} \<and>
   required (node0\<lparr>assignments := {''job-1''}\<rparr>) \<and>
   assignments (required_setter (node0\<lparr>assignments := {''job-1''}\<rparr>) False) \<noteq> {} \<and>
   required (required_setter (node0\<lparr>assignments := {''job-1''}\<rparr>) False) \<and>
   assignments (assign node0 ''job-2'') \<noteq> {} \<and>
   required (assign node0 ''job-2'')"
proof -
  have h: "assignments (node0\<lparr>assignments := {''job-1''}\<rparr>) \<noteq> {}" by simp
  have h2: "assignments (required_setter (node0\<lparr>assignments := {''job-1''}\<rparr>) False) \<noteq> {}"
    by (simp add: required_setter_def)
  have h3: "assignments (assign node0 ''job-2'') \<noteq> {}" by (simp add: assign_def)
  show ?thesis
    using assignments_imply_required
            [of "node0\<lparr>assignments := {''job-1''}\<rparr>" "[]" 1 None "''u-1''" "''job-2''" node0 False "''t-2''"]
          assignments_imply_required
            [of node0 "[]" 1 None "''u-1''" "''job-2''" node0 False "''t-2''"]
          h h2 h3
    by (simp add: inv_required_def)
qed

end
